theory Spec2Isabelle
  imports Main "HOL-Library.Sublist" "HOL-Library.AList"
begin

section \<open>Characters and strings as the scripts use them\<close>

text \<open>
  The scripts under \<^verbatim>\<open>docs/scripts\<close> work on Python \<^verbatim>\<open>str\<close> values. A string is
  modelled as a \<^typ>\<open>string\<close>, one \<^typ>\<open>char\<close> per code point, so the model covers
  the code points 0 to 255 (Latin-1), which include all of ASCII. The character
  predicates below are Python's on that range. The substring test
  \<^verbatim>\<open>sub in s\<close> is \<^const>\<open>sublist\<close>, \<^verbatim>\<open>s.startswith(p)\<close> is \<^const>\<open>prefix\<close>.
\<close>

definition isspace :: "char \<Rightarrow> bool" where
  \<comment> \<open>\<^verbatim>\<open>str.isspace\<close>, which is also what \<^verbatim>\<open>strip()\<close>, \<^verbatim>\<open>split()\<close> and \<^verbatim>\<open>\s\<close> use\<close>
  "isspace c = (let n = (of_char c :: nat) in
     (9 \<le> n \<and> n \<le> 13) \<or> (28 \<le> n \<and> n \<le> 32) \<or> n = 133 \<or> n = 160)"

definition isupper_chr :: "char \<Rightarrow> bool" where
  \<comment> \<open>the characters that \<^verbatim>\<open>str.lower\<close> changes: A-Z and the Latin-1 capitals\<close>
  "isupper_chr c = (let n = (of_char c :: nat) in
     (65 \<le> n \<and> n \<le> 90) \<or> (192 \<le> n \<and> n \<le> 222 \<and> n \<noteq> 215))"

definition lower_chr :: "char \<Rightarrow> char" where
  "lower_chr c = (if isupper_chr c then char_of ((of_char c :: nat) + 32) else c)"

definition lower :: "string \<Rightarrow> string" where
  "lower s = map lower_chr s"

definition isalnum :: "char \<Rightarrow> bool" where
  \<comment> \<open>\<^verbatim>\<open>str.isalnum\<close>: letters, digits and the numeric characters of Latin-1\<close>
  "isalnum c = (let n = (of_char c :: nat) in
     (48 \<le> n \<and> n \<le> 57) \<or> (65 \<le> n \<and> n \<le> 90) \<or> (97 \<le> n \<and> n \<le> 122) \<or>
     n = 170 \<or> n = 178 \<or> n = 179 \<or> n = 181 \<or> n = 185 \<or> n = 186 \<or>
     (188 \<le> n \<and> n \<le> 190) \<or> (192 \<le> n \<and> n \<le> 214) \<or>
     (216 \<le> n \<and> n \<le> 246) \<or> (248 \<le> n \<and> n \<le> 255))"

text \<open>
  \<^verbatim>\<open>s.replace(old, new)\<close> replaces the occurrences of \<^verbatim>\<open>old\<close> from left to right
  without overlap. For an empty \<^verbatim>\<open>old\<close> Python puts \<^verbatim>\<open>new\<close> before every character
  and at the end.
\<close>

function replace :: "string \<Rightarrow> string \<Rightarrow> string \<Rightarrow> string" where
  "replace old new [] = (if old = [] then new else [])"
| "replace old new (c # cs) =
     (if old = [] then new @ c # replace old new cs
      else if prefix old (c # cs) then new @ replace old new (drop (length old) (c # cs))
      else c # replace old new cs)"
  by pat_completeness auto
termination
  by (relation "measure (\<lambda>(old, new, s). length s)") auto

definition strip_chars :: "(char \<Rightarrow> bool) \<Rightarrow> string \<Rightarrow> string" where
  \<comment> \<open>\<^verbatim>\<open>s.strip(chars)\<close>: drop the characters of the set at both ends\<close>
  "strip_chars p s = rev (dropWhile p (rev (dropWhile p s)))"

definition strip :: "string \<Rightarrow> string" where
  \<comment> \<open>\<^verbatim>\<open>s.strip()\<close>\<close>
  "strip s = strip_chars isspace s"

section \<open>The anchor slug functions\<close>

text \<open>
  \<^verbatim>\<open>aztecjs_reference_generation/transform_to_markdown.py\<close>, \<^verbatim>\<open>MarkdownGenerator.slugify\<close>:
  lower-case, turn space, slash, dot and underscore into hyphens, keep only alphanumeric
  characters and hyphens, replace \<^verbatim>\<open>--\<close> by \<^verbatim>\<open>-\<close> while there is one, strip hyphens at
  both ends.
\<close>

lemma replace_hyphens_length_le:
  "length (replace ''--'' ''-'' s) \<le> length s"
proof (induction s rule: length_induct)
  case (1 s)
  show ?case
  proof (cases s)
    case Nil
    then show ?thesis by simp
  next
    case (Cons c cs)
    have a: "length (replace ''--'' ''-'' cs) \<le> length cs"
      using 1 [THEN spec, of cs] Cons by simp
    have b: "length (replace ''--'' ''-'' (tl cs)) \<le> length (tl cs)"
      using 1 [THEN spec, of "tl cs"] Cons by simp
    show ?thesis using a b Cons by (auto simp: drop_Suc)
  qed
qed

lemma replace_hyphens_length_less:
  "sublist ''--'' s \<Longrightarrow> length (replace ''--'' ''-'' s) < length s"
proof (induction s)
  case Nil
  then show ?case by simp
next
  case (Cons c cs)
  show ?case
  proof (cases "prefix ''--'' (c # cs)")
    case True
    have "length (replace ''--'' ''-'' (drop 2 (c # cs))) \<le> length (drop 2 (c # cs))"
      by (rule replace_hyphens_length_le)
    moreover have "2 \<le> length (c # cs)"
      using True by (auto simp: prefix_def)
    ultimately show ?thesis using True by auto
  next
    case False
    then have "sublist ''--'' cs" using Cons.prems by (simp only: sublist_code) simp
    then show ?thesis using Cons.IH False by auto
  qed
qed

function collapse_hyphens :: "string \<Rightarrow> string" where
  \<comment> \<open>\<^verbatim>\<open>while '--' in slug: slug = slug.replace('--', '-')\<close>\<close>
  "collapse_hyphens s =
     (if sublist ''--'' s then collapse_hyphens (replace ''--'' ''-'' s) else s)"
  by pat_completeness auto
termination
  by (relation "measure length") (auto simp: replace_hyphens_length_less)

declare collapse_hyphens.simps [simp del]

definition slugify :: "string \<Rightarrow> string" where
  "slugify text =
     (let slug = lower text;
          slug = replace '' '' ''-'' slug;
          slug = replace ''/'' ''-'' slug;
          slug = replace ''.'' ''-'' slug;
          slug = replace ''_'' ''-'' slug;
          slug = filter (\<lambda>c. isalnum c \<or> c = CHR ''-'') slug;
          slug = collapse_hyphens slug
      in strip_chars (\<lambda>c. c = CHR ''-'') slug)"

text \<open>
  \<^verbatim>\<open>cli_reference_generation/transform_to_markdown.py\<close>, \<^verbatim>\<open>MarkdownGenerator.slugify\<close>:
  \<^verbatim>\<open>text.lower().replace(' ', '-').replace('/', '-')\<close> and nothing more.
\<close>

definition cli_slugify :: "string \<Rightarrow> string" where
  "cli_slugify text = replace ''/'' ''-'' (replace '' '' ''-'' (lower text))"

subsection \<open>Properties of the slug functions\<close>

lemma replace_single:
  "replace [a] [b] s = map (\<lambda>c. if c = a then b else c) s"
  by (induction s) auto

lemma lower_chr_idem: "lower_chr (lower_chr c) = lower_chr c"
proof (cases "isupper_chr c")
  case False
  then show ?thesis by (simp add: lower_chr_def)
next
  case True
  have "of_char (char_of ((of_char c :: nat) + 32)) = (of_char c :: nat) + 32"
    using True by (auto simp: isupper_chr_def Let_def)
  then have "\<not> isupper_chr (char_of ((of_char c :: nat) + 32))"
    using True by (auto simp: isupper_chr_def Let_def)
  then show ?thesis using True by (simp add: lower_chr_def)
qed

lemma collapse_hyphens_none: "\<not> sublist ''--'' (collapse_hyphens s)"
  by (induction s rule: collapse_hyphens.induct) (subst collapse_hyphens.simps, simp)

lemma collapse_hyphens_id: "\<not> sublist ''--'' s \<Longrightarrow> collapse_hyphens s = s"
  by (subst collapse_hyphens.simps) simp

lemma set_replace_hyphens: "set (replace ''--'' ''-'' s) \<subseteq> set s"
proof (induction s rule: length_induct)
  case (1 s)
  show ?case
  proof (cases s)
    case Nil
    then show ?thesis by simp
  next
    case (Cons c cs)
    have a: "set (replace ''--'' ''-'' cs) \<subseteq> set cs"
      using 1 [THEN spec, of cs] Cons by simp
    have b: "set (replace ''--'' ''-'' (tl cs)) \<subseteq> set (tl cs)"
      using 1 [THEN spec, of "tl cs"] Cons by simp
    have c: "set (tl cs) \<subseteq> set cs" by (cases cs) auto
    show ?thesis using a b c Cons by (auto simp: drop_Suc)
  qed
qed

lemma set_collapse_hyphens: "set (collapse_hyphens s) \<subseteq> set s"
proof (induction s rule: collapse_hyphens.induct)
  case (1 s)
  show ?case
  proof (cases "sublist ''--'' s")
    case True
    then have "set (collapse_hyphens s) = set (collapse_hyphens (replace ''--'' ''-'' s))"
      by (subst collapse_hyphens.simps) simp
    then show ?thesis using 1 True set_replace_hyphens [of s] by blast
  next
    case False
    then show ?thesis by (simp add: collapse_hyphens_id)
  qed
qed

lemma strip_chars_sublist: "sublist (strip_chars p s) s"
proof -
  have "prefix (rev (dropWhile p (rev (dropWhile p s)))) (dropWhile p s)"
    by (metis prefix_def rev_append rev_rev_ident takeWhile_dropWhile_id)
  moreover have "suffix (dropWhile p s) s"
    by (metis suffix_def takeWhile_dropWhile_id)
  ultimately show ?thesis
    unfolding strip_chars_def
    by (meson prefix_imp_sublist suffix_imp_sublist sublist_order.order_trans)
qed

lemma set_strip_chars: "set (strip_chars p s) \<subseteq> set s"
  using strip_chars_sublist set_mono_sublist by blast

lemma strip_chars_hd: "strip_chars p s \<noteq> [] \<Longrightarrow> \<not> p (hd (strip_chars p s))"
proof -
  assume ne: "strip_chars p s \<noteq> []"
  let ?d = "dropWhile p s"
  have "prefix (strip_chars p s) ?d"
    unfolding strip_chars_def
    by (metis prefix_def rev_append rev_rev_ident takeWhile_dropWhile_id)
  then obtain zs where z: "?d = strip_chars p s @ zs"
    by (auto simp: prefix_def)
  have "hd (strip_chars p s) = hd ?d" using z ne by simp
  moreover have "?d \<noteq> []" using z ne by simp
  ultimately show ?thesis by (metis hd_dropWhile)
qed

lemma strip_chars_last: "strip_chars p s \<noteq> [] \<Longrightarrow> \<not> p (last (strip_chars p s))"
proof -
  assume ne: "strip_chars p s \<noteq> []"
  then have "dropWhile p (rev (dropWhile p s)) \<noteq> []" by (simp add: strip_chars_def)
  then have "\<not> p (hd (dropWhile p (rev (dropWhile p s))))" by (rule hd_dropWhile)
  then show ?thesis using ne by (simp add: strip_chars_def last_rev)
qed

lemma strip_chars_id:
  "s = [] \<or> (\<not> p (hd s) \<and> \<not> p (last s)) \<Longrightarrow> strip_chars p s = s"
proof (cases s)
  case Nil
  then show ?thesis by (simp add: strip_chars_def)
next
  case (Cons c cs)
  assume "s = [] \<or> (\<not> p (hd s) \<and> \<not> p (last s))"
  then have h: "\<not> p (hd s)" and l: "\<not> p (last s)" using Cons by auto
  have "dropWhile p s = s" using h Cons by simp
  moreover have "dropWhile p (rev s) = rev s"
    using l Cons by (metis hd_rev list.sel(1) dropWhile.simps(2) rev_is_Nil_conv neq_Nil_conv)
  ultimately show ?thesis by (simp add: strip_chars_def)
qed

lemma slug_stage_chars:
  assumes "c \<in> set (filter (\<lambda>c. isalnum c \<or> c = CHR ''-'')
     (replace ''_'' ''-'' (replace ''.'' ''-'' (replace ''/'' ''-'' (replace '' '' ''-'' (lower x))))))"
  shows "(isalnum c \<or> c = CHR ''-'') \<and> lower_chr c = c"
proof -
  have "c = CHR ''-'' \<or> c \<in> set (lower x)"
    using assms by (auto simp: replace_single split: if_splits)
  moreover have "lower_chr (CHR ''-'') = CHR ''-''"
    by (simp add: lower_chr_def isupper_chr_def)
  ultimately have "lower_chr c = c"
    by (auto simp: lower_def lower_chr_idem)
  then show ?thesis using assms by auto
qed

lemma slugify_chars:
  assumes "c \<in> set (slugify x)"
  shows "(isalnum c \<or> c = CHR ''-'') \<and> lower_chr c = c"
proof -
  let ?f = "filter (\<lambda>c. isalnum c \<or> c = CHR ''-'')
     (replace ''_'' ''-'' (replace ''.'' ''-'' (replace ''/'' ''-'' (replace '' '' ''-'' (lower x)))))"
  have "set (slugify x) \<subseteq> set ?f"
    unfolding slugify_def Let_def
    using set_strip_chars set_collapse_hyphens by (meson subset_trans)
  then show ?thesis using assms slug_stage_chars [of c x] by blast
qed

lemma slugify_no_double: "\<not> sublist ''--'' (slugify x)"
  unfolding slugify_def Let_def
  using collapse_hyphens_none strip_chars_sublist
  by (meson sublist_order.order_trans)

lemma slugify_ends:
  "slugify x = [] \<or> (hd (slugify x) \<noteq> CHR ''-'' \<and> last (slugify x) \<noteq> CHR ''-'')"
  unfolding slugify_def Let_def
  using strip_chars_hd [of "\<lambda>c. c = CHR ''-''"] strip_chars_last [of "\<lambda>c. c = CHR ''-''"]
  by blast

lemma not_special:
  "isalnum c \<or> c = CHR ''-'' \<Longrightarrow>
     c \<noteq> CHR '' '' \<and> c \<noteq> CHR ''/'' \<and> c \<noteq> CHR ''.'' \<and> c \<noteq> CHR ''_''"
  by (auto simp: isalnum_def)

lemma slugify_fixed:
  assumes chars: "\<forall>c \<in> set s. (isalnum c \<or> c = CHR ''-'') \<and> lower_chr c = c"
    and nd: "\<not> sublist ''--'' s"
    and ends: "s = [] \<or> (hd s \<noteq> CHR ''-'' \<and> last s \<noteq> CHR ''-'')"
  shows "slugify s = s"
proof -
  have l: "lower s = s" using chars by (simp add: lower_def map_idI)
  have r: "map (\<lambda>c. if c = a then CHR ''-'' else c) s = s"
    if "a = CHR '' '' \<or> a = CHR ''/'' \<or> a = CHR ''.'' \<or> a = CHR ''_''" for a
    using chars that not_special by (intro map_idI) auto
  have f: "filter (\<lambda>c. isalnum c \<or> c = CHR ''-'') s = s"
    using chars by (simp add: filter_id_conv)
  have c: "collapse_hyphens s = s" using nd by (rule collapse_hyphens_id)
  have t: "strip_chars (\<lambda>c. c = CHR ''-'') s = s" using ends by (intro strip_chars_id) auto
  show ?thesis
    unfolding slugify_def Let_def by (simp add: l replace_single r f c t)
qed

lemma slugify_slugify: "slugify (slugify x) = slugify x"
  using slugify_fixed [of "slugify x"] slugify_chars [of _ x] slugify_no_double [of x] slugify_ends [of x]
  by blast

lemma cli_slugify_cli_slugify: "cli_slugify (cli_slugify x) = cli_slugify x"
proof -
  have a: "lower_chr (CHR ''-'') = CHR ''-''"
    by (simp add: lower_chr_def isupper_chr_def)
  have "lower_chr (if (if lower_chr c = CHR '' '' then CHR ''-'' else lower_chr c) = CHR ''/'' then CHR ''-''
          else (if lower_chr c = CHR '' '' then CHR ''-'' else lower_chr c))
        = (if (if lower_chr c = CHR '' '' then CHR ''-'' else lower_chr c) = CHR ''/'' then CHR ''-''
          else (if lower_chr c = CHR '' '' then CHR ''-'' else lower_chr c))" for c
    by (simp add: a lower_chr_idem)
  then show ?thesis
    by (simp add: cli_slugify_def replace_single lower_def comp_def a lower_chr_idem)
qed

text \<open>
  Claim C7 says of "the anchor slug function" that it is idempotent and that its result
  never has two hyphens in a row, a leading hyphen or a trailing hyphen. The repository
  has two slug functions. The command-line renderer's \<^const>\<open>cli_slugify\<close> only lower-cases
  and replaces spaces and slashes, so doubled, leading and trailing hyphens stay:
\<close>

theorem cli_slugify_keeps_hyphens:
  "cli_slugify ''a  b'' = ''a--b'' \<and> sublist ''--'' (cli_slugify ''a  b'') \<and>
   cli_slugify '' a '' = ''-a-'' \<and> prefix ''-'' (cli_slugify '' a '') \<and>
   suffix ''-'' (cli_slugify '' a '')"
  by (simp add: cli_slugify_def lower_def lower_chr_def isupper_chr_def suffix_def sublist_code)

text \<open>
  Claim C7, amended: the API-reference renderer's \<^const>\<open>slugify\<close> is idempotent and its
  result never has two hyphens in a row, a leading hyphen or a trailing hyphen, for every
  input; the command-line renderer's \<^const>\<open>cli_slugify\<close> is idempotent.
\<close>

theorem slugify_idempotent_clean:
  "slugify (slugify x) = slugify x \<and>
   \<not> sublist ''--'' (slugify x) \<and>
   \<not> prefix ''-'' (slugify x) \<and>
   \<not> suffix ''-'' (slugify x) \<and>
   cli_slugify (cli_slugify x) = cli_slugify x"
proof -
  have p: "\<not> prefix ''-'' (slugify x)"
    using slugify_ends [of x] by (auto simp: prefix_def)
  have s: "\<not> suffix ''-'' (slugify x)"
    using slugify_ends [of x] by (auto simp: suffix_def)
  show ?thesis
    using p s slugify_slugify slugify_no_double cli_slugify_cli_slugify by simp
qed

section \<open>Splitting and regular expressions\<close>

text \<open>
  \<^verbatim>\<open>s.split(d)\<close> for a one-character separator (the scripts split on the newline), and
  \<^verbatim>\<open>s.split()\<close>, which splits on runs of whitespace and drops empty pieces.
\<close>

function split_on :: "char \<Rightarrow> string \<Rightarrow> string list" where
  "split_on d s =
     (case dropWhile (\<lambda>c. c \<noteq> d) s of
        [] \<Rightarrow> [takeWhile (\<lambda>c. c \<noteq> d) s]
      | _ # r \<Rightarrow> takeWhile (\<lambda>c. c \<noteq> d) s # split_on d r)"
  by pat_completeness auto
termination
proof (relation "measure (\<lambda>(d, s). length s)")
  fix d :: char and s x21 x22
  assume "dropWhile (\<lambda>c. c \<noteq> d) s = x21 # x22"
  then have "Suc (length x22) \<le> length s"
    using length_dropWhile_le [of "\<lambda>c. c \<noteq> d" s] by simp
  then show "((d, x22), d, s) \<in> measure (\<lambda>(d, s). length s)" by simp
qed simp

declare split_on.simps [simp del]

function split_ws :: "string \<Rightarrow> string list" where
  "split_ws s =
     (case dropWhile isspace s of
        [] \<Rightarrow> []
      | c # r \<Rightarrow> (c # takeWhile (\<lambda>c. \<not> isspace c) r) # split_ws (dropWhile (\<lambda>c. \<not> isspace c) r))"
  by pat_completeness auto
termination
proof (relation "measure length")
  fix s :: string and x21 x22
  assume a: "dropWhile isspace s = x21 # x22"
  have "length (dropWhile (\<lambda>c. \<not> isspace c) x22) \<le> length x22"
    by (rule length_dropWhile_le)
  moreover have "Suc (length x22) \<le> length s"
    using a length_dropWhile_le [of isspace s] by simp
  ultimately show "(dropWhile (\<lambda>c. \<not> isspace c) x22, s) \<in> measure length" by simp
qed simp

declare split_ws.simps [simp del]

text \<open>
  The patterns of the scanner are matched by Python's backtracking matcher. The model is
  a matcher that returns every way a pattern can match at a position, in the order in
  which Python tries them; the first element is Python's match. A matcher state is the
  text consumed so far (reversed), the text still to read and the groups captured.
  Repetition is needed on character classes only: \<^verbatim>\<open>Rep p n\<close> is the greedy
  \<^verbatim>\<open>[p]{n,}\<close>, \<^verbatim>\<open>RepLazy p n\<close> the lazy \<^verbatim>\<open>[p]{n,}?\<close>. \<^verbatim>\<open>Bol\<close> and \<^verbatim>\<open>Eol\<close> are
  \<^verbatim>\<open>^\<close> and \<^verbatim>\<open>$\<close>, \<^verbatim>\<open>BolM\<close> and \<^verbatim>\<open>EolM\<close> the same under \<^verbatim>\<open>re.MULTILINE\<close>.
\<close>

datatype regex =
    Eps
  | Chr "char \<Rightarrow> bool"
  | Lit string
  | Seq regex regex
  | Opt regex
  | Rep "char \<Rightarrow> bool" nat
  | RepLazy "char \<Rightarrow> bool" nat
  | Grp nat regex
  | Bol
  | BolM
  | Eol
  | EolM

type_synonym mstate = "string \<times> string \<times> (nat \<rightharpoonup> string)"

fun spans :: "(char \<Rightarrow> bool) \<Rightarrow> string \<Rightarrow> string \<Rightarrow> (string \<times> string) list" where
  "spans p b [] = [(b, [])]"
| "spans p b (c # cs) = (b, c # cs) # (if p c then spans p (c # b) cs else [])"

fun rmatch :: "regex \<Rightarrow> mstate \<Rightarrow> mstate list" where
  "rmatch Eps st = [st]"
| "rmatch (Chr p) (b, s, g) =
     (case s of [] \<Rightarrow> [] | c # cs \<Rightarrow> if p c then [(c # b, cs, g)] else [])"
| "rmatch (Lit l) (b, s, g) =
     (if prefix l s then [(rev l @ b, drop (length l) s, g)] else [])"
| "rmatch (Seq r1 r2) st = concat (map (rmatch r2) (rmatch r1 st))"
| "rmatch (Opt r) st = rmatch r st @ [st]"
| "rmatch (Rep p n) (b, s, g) = map (\<lambda>(b', s'). (b', s', g)) (rev (drop n (spans p b s)))"
| "rmatch (RepLazy p n) (b, s, g) = map (\<lambda>(b', s'). (b', s', g)) (drop n (spans p b s))"
| "rmatch (Grp k r) (b, s, g) =
     map (\<lambda>(b', s', g'). (b', s', g'(k \<mapsto> rev (take (length b' - length b) b'))))
       (rmatch r (b, s, g))"
| "rmatch Bol (b, s, g) = (if b = [] then [(b, s, g)] else [])"
| "rmatch BolM (b, s, g) = (if b = [] \<or> hd b = CHR 0x0A then [(b, s, g)] else [])"
| "rmatch Eol (b, s, g) = (if s = [] \<or> s = [CHR 0x0A] then [(b, s, g)] else [])"
| "rmatch EolM (b, s, g) = (if s = [] \<or> hd s = CHR 0x0A then [(b, s, g)] else [])"

definition seqs :: "regex list \<Rightarrow> regex" where
  "seqs rs = foldr Seq rs Eps"

definition re_match :: "regex \<Rightarrow> string \<Rightarrow> (nat \<rightharpoonup> string) option" where
  "re_match r s = (case rmatch r ([], s, Map.empty) of [] \<Rightarrow> None | (b, s', g) # _ \<Rightarrow> Some g)"

fun search_from :: "regex \<Rightarrow> string \<Rightarrow> string \<Rightarrow> (string \<times> mstate) option" where
  "search_from r b [] =
     (case rmatch r (b, [], Map.empty) of [] \<Rightarrow> None | m # _ \<Rightarrow> Some (b, m))"
| "search_from r b (c # cs) =
     (case rmatch r (b, c # cs, Map.empty) of
        [] \<Rightarrow> search_from r (c # b) cs
      | m # _ \<Rightarrow> Some (b, m))"

definition re_search :: "regex \<Rightarrow> string \<Rightarrow> (nat \<rightharpoonup> string) option" where
  "re_search r s = (case search_from r [] s of None \<Rightarrow> None | Some (b, b', s', g) \<Rightarrow> Some g)"

definition re_split1 :: "regex \<Rightarrow> string \<Rightarrow> string list" where
  "re_split1 r s =
     (case search_from r [] s of None \<Rightarrow> [s] | Some (b, b', s', g) \<Rightarrow> [rev b, s'])"

section \<open>The Commander-style parser (\<^verbatim>\<open>scan_cli.py\<close>, \<^verbatim>\<open>parse_commander_help\<close>)\<close>


text \<open>
  The only Python exception the parsers can raise is the \<^verbatim>\<open>IndexError\<close> of
  \<^verbatim>\<open>cmd_full.split()[0]\<close>; it is a branch of the model.
\<close>

datatype py_error = IndexError

definition NL :: char where
  \<comment> \<open>the newline character\<close>
  "NL = CHR 0x0A"

text \<open>
  \<^verbatim>\<open>m.group(k)\<close> of a match. The groups read with \<^verbatim>\<open>grp\<close> are either not optional in
  their pattern, so that a match always sets them, or read as \<^verbatim>\<open>m.group(k) or ""\<close>.
\<close>

definition grp :: "(nat \<rightharpoonup> string) \<Rightarrow> nat \<Rightarrow> string" where
  "grp g k = (case g k of None \<Rightarrow> [] | Some s \<Rightarrow> s)"

record cmd_option =
  opt_short :: string
  opt_long :: string
  opt_description :: string

record command =
  cmd_name :: string
  cmd_signature :: string
  cmd_description :: string

record commander =
  cm_usage :: string
  cm_description :: string
  cm_options :: "cmd_option list"
  cm_commands :: "command list"

text \<open>
  \<^verbatim>\<open>\s+(-[^,\s]+)?(?:,\s+)?(--[^\s]+(?:\s+<[^>]+>)?)\s+(.*)\<close>
\<close>

definition option_re :: regex where
  "option_re = seqs
     [Rep isspace 1,
      Opt (Grp 1 (seqs [Lit ''-'', Rep (\<lambda>c. c \<noteq> CHR '','' \<and> \<not> isspace c) 1])),
      Opt (seqs [Lit '','', Rep isspace 1]),
      Grp 2 (seqs [Lit ''--'', Rep (\<lambda>c. \<not> isspace c) 1,
                   Opt (seqs [Rep isspace 1, Lit ''<'', Rep (\<lambda>c. c \<noteq> CHR ''>'') 1, Lit ''>''])]),
      Rep isspace 1,
      Grp 3 (Rep (\<lambda>c. c \<noteq> NL) 0)]"

text \<open>
  One iteration of the loop over the lines: the result dictionary and \<^verbatim>\<open>current_section\<close>
  (\<^verbatim>\<open>None\<close>, \<^verbatim>\<open>'options'\<close> or \<^verbatim>\<open>'commands'\<close>) are the state.
\<close>

definition commander_line ::
  "string \<Rightarrow> commander \<times> string option \<Rightarrow> py_error + commander \<times> string option" where
  "commander_line line st =
     (let res = fst st; current_section = snd st in
      if prefix ''Usage:'' (strip line) then
        Inr (res\<lparr>cm_usage := strip (replace ''Usage:'' '''' line)\<rparr>, current_section)
      else if sublist ''Options:'' line then Inr (res, Some ''options'')
      else if sublist ''Commands:'' line \<or> sublist ''Arguments:'' line then
        Inr (res, Some ''commands'')
      else if strip line \<noteq> [] \<and> \<not> prefix '' '' line \<and> current_section = None then
        (if cm_usage res \<noteq> [] \<and> cm_description res = []
         then Inr (res\<lparr>cm_description := strip line\<rparr>, current_section)
         else Inr (res, current_section))
      else if current_section = Some ''options'' \<and> prefix ''-'' (strip line) then
        (case re_match option_re line of
           None \<Rightarrow> Inr (res, current_section)
         | Some g \<Rightarrow>
             Inr (res\<lparr>cm_options := cm_options res @
                    [\<lparr>opt_short = grp g 1, opt_long = grp g 2,
                      opt_description = strip (grp g 3)\<rparr>]\<rparr>, current_section))
      else if current_section = Some ''commands'' \<and> strip line \<noteq> [] \<and>
              \<not> prefix ''Additional'' (strip line) then
        (let stripped = strip line in
         if stripped \<noteq> [] \<and> \<not> prefix ''-'' stripped then
           (case re_split1 (Rep isspace 2) (strip line) of
              [p0, p1] \<Rightarrow>
                (case split_ws (strip p0) of
                   [] \<Rightarrow> Inl IndexError
                 | w # _ \<Rightarrow>
                     Inr (res\<lparr>cm_commands := cm_commands res @
                            [\<lparr>cmd_name = w, cmd_signature = strip p0,
                              cmd_description = strip p1\<rparr>]\<rparr>, current_section))
            | _ \<Rightarrow> Inr (res, current_section))
         else Inr (res, current_section))
      else Inr (res, current_section))"

fun commander_lines ::
  "string list \<Rightarrow> commander \<times> string option \<Rightarrow> py_error + commander \<times> string option" where
  "commander_lines [] st = Inr st"
| "commander_lines (l # ls) st =
     (case commander_line l st of Inl e \<Rightarrow> Inl e | Inr st' \<Rightarrow> commander_lines ls st')"

definition parse_commander_help :: "string \<Rightarrow> py_error + commander" where
  "parse_commander_help help_text =
     (case commander_lines (split_on NL help_text)
             (\<lparr>cm_usage = [], cm_description = [], cm_options = [], cm_commands = []\<rparr>, None) of
        Inl e \<Rightarrow> Inl e
      | Inr st \<Rightarrow> Inr (fst st))"

text \<open>
  Claim C5: on the help text
  \<^verbatim>\<open>"Usage: tool [opts]\nA short tool.\n\nCommands:\n  build [x]  Builds it\n\nOptions:\n  -h, --help  show help\n"\<close>
  the parser returns usage \<^verbatim>\<open>tool [opts]\<close>, description \<^verbatim>\<open>A short tool.\<close>, exactly one
  command (name \<^verbatim>\<open>build\<close>, signature \<^verbatim>\<open>build [x]\<close>, description \<^verbatim>\<open>Builds it\<close>) and
  exactly one option (short \<^verbatim>\<open>-h\<close>, long \<^verbatim>\<open>--help\<close>, description \<^verbatim>\<open>show help\<close>), and it
  raises nothing.
\<close>

theorem parse_commander_help_example:
  "parse_commander_help
     (''Usage: tool [opts]'' @ [NL] @ ''A short tool.'' @ [NL] @ [NL] @
      ''Commands:'' @ [NL] @ ''  build [x]  Builds it'' @ [NL] @ [NL] @
      ''Options:'' @ [NL] @ ''  -h, --help  show help'' @ [NL]) =
   Inr \<lparr>cm_usage = ''tool [opts]'', cm_description = ''A short tool.'',
        cm_options =
          [\<lparr>opt_short = ''-h'', opt_long = ''--help'', opt_description = ''show help''\<rparr>],
        cm_commands =
          [\<lparr>cmd_name = ''build'', cmd_signature = ''build [x]'',
            cmd_description = ''Builds it''\<rparr>]\<rparr>"
  by code_simp

section \<open>The sectioned parser (\<^verbatim>\<open>scan_cli.py\<close>, \<^verbatim>\<open>parse_custom_help\<close>)\<close>


record custom_option =
  copt_flag :: string
  copt_default :: "string option"
  copt_env :: "string option"
  copt_description :: string

record help_section =
  sec_name :: string
  sec_options :: "custom_option list"

text \<open>
  The result dictionary, and the two cursors of the loop. In the source
  \<^verbatim>\<open>current_section\<close> and \<^verbatim>\<open>current_option\<close> are references to dictionaries that live
  inside \<^verbatim>\<open>result["sections"]\<close> and are mutated in place; the model holds their positions
  instead: the index of the section, and the indices of the section and of the option in
  it. Both are in range whenever they are set.
\<close>

record custom =
  cu_usage :: string
  cu_description :: string
  cu_sections :: "help_section list"

record custom_state =
  result :: custom
  current_section :: "nat option"
  current_option :: "(nat \<times> nat) option"

definition isAZ :: "char \<Rightarrow> bool" where
  "isAZ c = (let n = (of_char c :: nat) in 65 \<le> n \<and> n \<le> 90)"

text \<open>
  The patterns, in the order of the source:
  \<^verbatim>\<open>^\s{2}([A-Z][A-Z\s]+?)\s*$\<close>, \<^verbatim>\<open>^\s+(--.+?)\s{2,}\<close>, \<^verbatim>\<open>\(default:\s*([^)]+)\)\<close>,
  \<^verbatim>\<open>\(\$([^)]+)\)\<close> and \<^verbatim>\<open>^\s{10,}(.+)\<close>.
\<close>

definition section_re :: regex where
  "section_re = seqs
     [Bol, Chr isspace, Chr isspace,
      Grp 1 (seqs [Chr isAZ, RepLazy (\<lambda>c. isAZ c \<or> isspace c) 1]),
      Rep isspace 0, Eol]"

definition option_line_re :: regex where
  "option_line_re = seqs
     [Bol, Rep isspace 1, Grp 1 (seqs [Lit ''--'', RepLazy (\<lambda>c. c \<noteq> NL) 1]), Rep isspace 2]"

definition default_re :: regex where
  "default_re = seqs
     [Lit ''(default:'', Rep isspace 0, Grp 1 (Rep (\<lambda>c. c \<noteq> CHR '')'') 1), Lit '')'']"

definition env_re :: regex where
  "env_re = seqs [Lit ''($'', Grp 1 (Rep (\<lambda>c. c \<noteq> CHR '')'') 1), Lit '')'']"

definition desc_re :: regex where
  "desc_re = seqs [Bol, Rep isspace 10, Grp 1 (Rep (\<lambda>c. c \<noteq> NL) 1)]"

text \<open>
  \<^verbatim>\<open>current_section["options"].append(current_option)\<close> and
  \<^verbatim>\<open>current_option["description"] = ...\<close>, as updates of the section list.
\<close>

definition add_option :: "nat \<Rightarrow> custom_option \<Rightarrow> help_section list \<Rightarrow> help_section list" where
  "add_option i opt secs =
     secs[i := (secs ! i)\<lparr>sec_options := sec_options (secs ! i) @ [opt]\<rparr>]"

definition set_description :: "nat \<times> nat \<Rightarrow> string \<Rightarrow> help_section list \<Rightarrow> help_section list" where
  "set_description a d secs =
     secs[fst a := (secs ! fst a)\<lparr>sec_options :=
        (sec_options (secs ! fst a))[snd a :=
           (sec_options (secs ! fst a) ! snd a)\<lparr>copt_description := d\<rparr>]\<rparr>]"

text \<open>
  The body of the loop after the section-header test (\<^verbatim>\<open>if current_section:\<close>), and the
  whole iteration.
\<close>

definition custom_option_line :: "string \<Rightarrow> custom_state \<Rightarrow> custom_state" where
  "custom_option_line line st =
     (case current_section st of
        None \<Rightarrow> st
      | Some i \<Rightarrow>
          (case re_match option_line_re line of
             Some g \<Rightarrow>
               st\<lparr>result := (result st)\<lparr>cu_sections := add_option i
                     \<lparr>copt_flag = strip (grp g 1),
                      copt_default =
                        map_option (\<lambda>m. strip (grp m 1)) (re_search default_re line),
                      copt_env = map_option (\<lambda>m. strip (grp m 1)) (re_search env_re line),
                      copt_description = []\<rparr> (cu_sections (result st))\<rparr>,
                  current_option :=
                    Some (i, length (sec_options (cu_sections (result st) ! i)))\<rparr>
           | None \<Rightarrow>
               (case current_option st of
                  None \<Rightarrow> st
                | Some a \<Rightarrow>
                    if strip line \<noteq> [] \<and> \<not> prefix ''--'' (strip line) then
                      (case re_match desc_re line of
                         Some g \<Rightarrow>
                           st\<lparr>result := (result st)\<lparr>cu_sections :=
                                set_description a (strip (grp g 1)) (cu_sections (result st))\<rparr>\<rparr>
                       | None \<Rightarrow> st)
                    else st)))"

definition custom_line :: "string \<Rightarrow> custom_state \<Rightarrow> custom_state" where
  "custom_line line st =
     (case re_match section_re line of
        Some g \<Rightarrow>
          if \<not> prefix ''-'' (strip line) then
            st\<lparr>result := (result st)\<lparr>cu_sections := cu_sections (result st) @
                   [\<lparr>sec_name = strip (grp g 1), sec_options = []\<rparr>]\<rparr>,
               current_section := Some (length (cu_sections (result st)))\<rparr>
          else custom_option_line line st
      | None \<Rightarrow> custom_option_line line st)"

definition custom_lines :: "string list \<Rightarrow> custom_state \<Rightarrow> custom_state" where
  "custom_lines ls st = foldl (\<lambda>s l. custom_line l s) st ls"

definition parse_custom_help :: "string \<Rightarrow> custom" where
  "parse_custom_help help_text =
     result (custom_lines (split_on NL help_text)
       \<lparr>result = \<lparr>cu_usage = [], cu_description = [], cu_sections = []\<rparr>,
        current_section = None, current_option = None\<rparr>)"


subsection \<open>Continuation lines\<close>








lemma hd_rev_drop:
  "n < length xs \<Longrightarrow> hd (rev (drop n xs)) = last xs"
  by (simp add: hd_rev)



















section \<open>The recursive scanner (\<^verbatim>\<open>scan_cli.py\<close>, \<^verbatim>\<open>CLIScanner\<close>)\<close>

subsection \<open>Nodes of the command tree\<close>

text \<open>
  \<^verbatim>\<open>scan_command\<close> returns a Python dict. Which keys it has depends on the branch that
  built it, so a node is a value with one optional field per key that the scanner ever
  sets: a field is \<^const>\<open>None\<close> when the dict has no such key. The \<^verbatim>\<open>subcommands\<close> dict
  keeps insertion order, so it is an association list, written with \<^const>\<open>AList.update\<close>.
\<close>

datatype node = Node
  (n_error: "string option") (n_error_type: "string option") (n_error_preview: "string option")
  (n_format: "string option") (n_usage: "string option") (n_description: "string option")
  (n_options: "cmd_option list option") (n_commands: "command list option")
  (n_sections: "help_section list option") (n_raw_help: "string option")
  (n_subcommands: "(string \<times> node) list option")

definition error_node :: "string \<Rightarrow> string option \<Rightarrow> string option \<Rightarrow> node" where
  \<comment> \<open>\<^verbatim>\<open>{"error": e}\<close>, with \<^verbatim>\<open>error_type\<close> and \<^verbatim>\<open>error_preview\<close> where the code adds them\<close>
  "error_node e t p = Node (Some e) t p None None None None None None None None"

definition commander_node :: "commander \<Rightarrow> (string \<times> node) list option \<Rightarrow> node" where
  \<comment> \<open>the dict of \<^verbatim>\<open>parse_commander_help\<close> with \<^verbatim>\<open>format\<close> and, if any, \<^verbatim>\<open>subcommands\<close>\<close>
  "commander_node parsed subs =
     Node None None None (Some ''commander'') (Some (cm_usage parsed))
       (Some (cm_description parsed)) (Some (cm_options parsed)) (Some (cm_commands parsed))
       None None subs"

definition custom_node :: "custom \<Rightarrow> node" where
  "custom_node parsed =
     Node None None None (Some ''custom'') (Some (cu_usage parsed))
       (Some (cu_description parsed)) None None (Some (cu_sections parsed)) None None"

definition raw_node :: "string \<Rightarrow> node" where
  "raw_node help_output =
     Node None None None (Some ''raw'') None None None None None (Some help_output) None"

subsection \<open>Running a command\<close>

text \<open>
  The scanner's state is the set \<^verbatim>\<open>self.visited\<close>. The model adds the list of the
  commands handed to \<^verbatim>\<open>subprocess.run\<close>, in order, so that "no external invocation"
  can be stated. (\<^verbatim>\<open>self.help_cache\<close> is initialised and never read or written, and the
  \<^verbatim>\<open>print\<close> calls do not influence the result; both are left out.)

  The process itself is a parameter \<open>proc\<close>: the command line is mapped to
  \<^verbatim>\<open>(result.stdout, result.stderr)\<close>, or to \<^const>\<open>None\<close> when \<^verbatim>\<open>subprocess.run\<close> raises
  (a timeout or any other exception). \<^verbatim>\<open>run_command\<close> concatenates the two texts and
  removes every match of \<^verbatim>\<open>\x1b\[[0-9;]*[a-zA-Z]\<close>.
\<close>

record scan_state =
  visited :: "string set"
  invocations :: "string list list"

definition initial_state :: scan_state where
  "initial_state = \<lparr>visited = {}, invocations = []\<rparr>"

fun join :: "string \<Rightarrow> string list \<Rightarrow> string" where
  "join sep [] = []"
| "join sep [x] = x"
| "join sep (x # y # ys) = x @ sep @ join sep (y # ys)"

definition ansi_pattern :: regex where
  "ansi_pattern = seqs [Lit [CHR 0x1B, CHR ''[''],
     Rep (\<lambda>c. (48 \<le> (of_char c :: nat) \<and> (of_char c :: nat) \<le> 57) \<or> c = CHR '';'') 0,
     Chr (\<lambda>c. (97 \<le> (of_char c :: nat) \<and> (of_char c :: nat) \<le> 122) \<or>
               (65 \<le> (of_char c :: nat) \<and> (of_char c :: nat) \<le> 90))]"

text \<open>
  \<^verbatim>\<open>pattern.sub('', s)\<close>: the matches are found from left to right without overlap and
  removed. \<open>b\<close> is the text before the current position, reversed.
\<close>

function re_remove :: "regex \<Rightarrow> string \<Rightarrow> string \<Rightarrow> string" where
  "re_remove r b [] = []"
| "re_remove r b (c # cs) =
     (case rmatch r (b, c # cs, Map.empty) of
        [] \<Rightarrow> c # re_remove r (c # b) cs
      | m # _ \<Rightarrow>
          if length (fst (snd m)) < length (c # cs) then re_remove r (fst m) (fst (snd m))
          else c # re_remove r (c # b) cs)"
  by pat_completeness auto
termination
  by (relation "measure (\<lambda>(r, b, s). length s)") auto

definition run_command :: "(string list \<Rightarrow> (string \<times> string) option) \<Rightarrow> string list \<Rightarrow> string option" where
  "run_command proc cmd =
     (case proc cmd of
        None \<Rightarrow> None
      | Some (out, err) \<Rightarrow> Some (re_remove ansi_pattern [] (out @ err)))"

subsection \<open>\<^verbatim>\<open>scan_command\<close>\<close>

definition error_markers :: "string list" where
  "error_markers =
     [''ERROR: cli Error in command execution'', ''TypeError: Do not know how to serialize'',
      ''TypeError:'', ''Error:'', ''at JSON.stringify'']"

definition custom_format_re :: regex where
  \<comment> \<open>\<^verbatim>\<open>^\s{2}[A-Z][A-Z\s]+$\<close> with \<^verbatim>\<open>re.MULTILINE\<close>\<close>
  "custom_format_re =
     seqs [BolM, Chr isspace, Chr isspace, Chr isAZ, Rep (\<lambda>c. isAZ c \<or> isspace c) 1, EolM]"

text \<open>
  \<^verbatim>\<open>scan_command(cmd_path, depth, parent_help)\<close>, with the state passed in and returned.
  The tests are in the order of the source: the visited set, then the depth, then the
  captured text (\<^verbatim>\<open>not help_output\<close> holds of \<^verbatim>\<open>None\<close> and of the empty string), then
  the parent's help (\<^verbatim>\<open>parent_help and ...\<close> skips the comparison for \<^verbatim>\<open>None\<close> and for
  the empty string), then the error markers, then the three formats. The loop over the
  listed commands is \<open>scan_subcommands\<close>; its accumulator is the \<^verbatim>\<open>subcommands\<close> dict.
  The only exception that can leave the function is the \<^verbatim>\<open>IndexError\<close> of
  \<^verbatim>\<open>parse_commander_help\<close>.
\<close>

function scan_command ::
    "(string list \<Rightarrow> (string \<times> string) option) \<Rightarrow> string list \<Rightarrow> int \<Rightarrow> string option \<Rightarrow>
     scan_state \<Rightarrow> py_error + node \<times> scan_state"
  and scan_subcommands ::
    "(string list \<Rightarrow> (string \<times> string) option) \<Rightarrow> string list \<Rightarrow> int \<Rightarrow> string \<Rightarrow>
     command list \<Rightarrow> (string \<times> node) list \<Rightarrow> scan_state \<Rightarrow>
     py_error + (string \<times> node) list \<times> scan_state"
where
  "scan_command proc cmd_path depth parent_help st =
     (let cmd_str = join '' '' cmd_path in
      if cmd_str \<in> visited st then Inr (error_node ''already_visited'' None None, st)
      else
        let st1 = st\<lparr>visited := insert cmd_str (visited st)\<rparr> in
        if depth > 5 then Inr (error_node ''max_depth_exceeded'' None None, st1)
        else
          let help_output = run_command proc (cmd_path @ [''--help'']);
              st2 = st1\<lparr>invocations := invocations st1 @ [cmd_path @ [''--help'']]\<rparr>
          in
          (case help_output of
             None \<Rightarrow> Inr (error_node ''no_help_output'' None None, st2)
           | Some out \<Rightarrow>
               if out = [] then Inr (error_node ''no_help_output'' None None, st2)
               else if (case parent_help of
                          None \<Rightarrow> False
                        | Some ph \<Rightarrow> ph \<noteq> [] \<and> strip out = strip ph)
               then Inr (error_node ''invalid_subcommand'' None None, st2)
               else if list_ex (\<lambda>marker. sublist marker out) error_markers then
                 Inr (error_node ''command_execution_error''
                        (Some (if sublist ''BigInt'' out then ''bigint_serialization''
                               else ''unknown''))
                        (Some (take 200 out)), st2)
               else if sublist ''Usage:'' out \<and> sublist ''Commands:'' out then
                 (case parse_commander_help out of
                    Inl e \<Rightarrow> Inl e
                  | Inr parsed \<Rightarrow>
                      (case scan_subcommands proc cmd_path depth out (cm_commands parsed) [] st2 of
                         Inl e \<Rightarrow> Inl e
                       | Inr r \<Rightarrow>
                           Inr (commander_node parsed
                                  (if fst r = [] then None else Some (fst r)), snd r)))
               else if re_search custom_format_re out \<noteq> None then
                 Inr (custom_node (parse_custom_help out), st2)
               else Inr (raw_node out, st2)))"
| "scan_subcommands proc cmd_path depth help_output [] subcommands st = Inr (subcommands, st)"
| "scan_subcommands proc cmd_path depth help_output (cmd # cmds) subcommands st =
     (if cmd_name cmd \<noteq> ''help'' then
        (case scan_command proc (cmd_path @ [cmd_name cmd]) (depth + 1) (Some help_output) st of
           Inl e \<Rightarrow> Inl e
         | Inr r \<Rightarrow>
             scan_subcommands proc cmd_path depth help_output cmds
               (AList.update (cmd_name cmd) (fst r) subcommands) (snd r))
      else scan_subcommands proc cmd_path depth help_output cmds subcommands st)"
  by pat_completeness auto
termination
  by (relation "inv_image (measure id <*lex*> measure id)
        (\<lambda>x. case x of
           Inl (proc, cmd_path, depth, parent_help, st) \<Rightarrow> (2 * nat (7 - depth), 0)
         | Inr (proc, cmd_path, depth, help_output, cmds, subcommands, st) \<Rightarrow>
             (2 * nat (6 - depth) + 1, length cmds))")
     auto

declare scan_command.simps [simp del]

text \<open>
  A node is well formed for claim C9 when no node of its tree has both the key
  \<^verbatim>\<open>error\<close> and the key \<^verbatim>\<open>subcommands\<close>.
\<close>

fun error_nodes_childless :: "node \<Rightarrow> bool" where
  "error_nodes_childless (Node e et ep f u d os cs ss rh subs) =
     ((e \<noteq> None \<longrightarrow> subs = None) \<and>
      (case subs of
         None \<Rightarrow> True
       | Some kvs \<Rightarrow> list_all (\<lambda>kv. error_nodes_childless (snd kv)) kvs))"

subsection \<open>Example processes\<close>

text \<open>
  \<open>proc_const out err\<close> prints the same two texts whatever the command, \<open>proc_fail\<close>
  always times out, and \<open>tool_proc\<close> is a small tool with the subcommands
  \<^verbatim>\<open>build\<close> (prints nothing), \<^verbatim>\<open>run\<close> (sectioned help) and \<^verbatim>\<open>help\<close>.
\<close>

definition proc_const :: "string \<Rightarrow> string \<Rightarrow> string list \<Rightarrow> (string \<times> string) option" where
  "proc_const out err cmd = Some (out, err)"

definition proc_fail :: "string list \<Rightarrow> (string \<times> string) option" where
  "proc_fail cmd = None"

definition tool_proc :: "string list \<Rightarrow> (string \<times> string) option" where
  "tool_proc cmd =
     (if cmd = [''tool'', ''--help''] then
        Some (''Usage: tool [opts]'' @ [NL] @ ''A short tool.'' @ [NL] @ [NL] @
              ''Commands:'' @ [NL] @ ''  build [x]  Builds it'' @ [NL] @
              ''  run  Runs it'' @ [NL] @ ''  help  Show help'' @ [NL], [])
      else if cmd = [''tool'', ''build'', ''--help''] then Some ([], [])
      else if cmd = [''tool'', ''run'', ''--help''] then
        Some (''  MISC'' @ [NL] @ ''    --x  y'', [])
      else None)"

definition tool_run_node :: node where
  "tool_run_node =
     custom_node
       \<lparr>cu_usage = [], cu_description = [],
          cu_sections =
            [\<lparr>sec_name = ''MISC'',
               sec_options = [\<lparr>copt_flag = ''--x'', copt_default = None, copt_env = None,
                                copt_description = []\<rparr>]\<rparr>]\<rparr>"

definition tool_tree :: node where
  "tool_tree =
     commander_node
       \<lparr>cm_usage = ''tool [opts]'', cm_description = ''A short tool.'', cm_options = [],
          cm_commands =
            [\<lparr>cmd_name = ''build'', cmd_signature = ''build [x]'', cmd_description = ''Builds it''\<rparr>,
             \<lparr>cmd_name = ''run'', cmd_signature = ''run'', cmd_description = ''Runs it''\<rparr>,
             \<lparr>cmd_name = ''help'', cmd_signature = ''help'', cmd_description = ''Show help''\<rparr>]\<rparr>
       (Some [(''build'', error_node ''no_help_output'' None None), (''run'', tool_run_node)])"

definition tool_state :: scan_state where
  "tool_state =
     \<lparr>visited = {''tool'', ''tool build'', ''tool run''},
        invocations = [[''tool'', ''--help''], [''tool'', ''build'', ''--help''],
                       [''tool'', ''run'', ''--help'']]\<rparr>"

subsection \<open>The visited set\<close>

lemma scan_visited_mono:
  "scan_command proc cmd_path depth parent_help st = Inr (r, st') \<Longrightarrow> visited st \<subseteq> visited st'"
  "scan_subcommands proc cmd_path depth help_output cmds subcommands st = Inr (subs, st'') \<Longrightarrow>
     visited st \<subseteq> visited st''"
proof (induction proc cmd_path depth parent_help st and proc cmd_path depth help_output cmds subcommands st
       arbitrary: r st' and subs st'' rule: scan_command_scan_subcommands.induct)
  case (1 proc cmd_path depth parent_help st)
  show ?case
    using "1.prems" "1.IH"
    apply (subst (asm) scan_command.simps)
    apply (auto simp: Let_def split: if_splits option.splits sum.splits)
    apply blast+
    done
next
  case (2 proc cmd_path depth help_output subcommands st)
  then show ?case by simp
next
  case (3 proc cmd_path depth help_output cmd cmds subcommands st)
  show ?case
    using "3.prems" "3.IH"
    apply (auto split: if_splits sum.splits)
    apply blast
    done
qed

lemma scan_command_marks_visited:
  assumes "scan_command proc cmd_path depth parent_help st = Inr (r, st')"
  shows "join '' '' cmd_path \<in> visited st'"
  using assms
  apply (subst (asm) scan_command.simps)
  apply (auto simp: Let_def split: if_splits option.splits sum.splits dest!: scan_visited_mono(2))
  done

text \<open>
  Claim C1: once \<^verbatim>\<open>scan_command\<close> has returned for a path, every later call on that path
  within the scan (a state whose visited set contains the one the first call left, which
  by \<open>scan_visited_mono\<close> is every later state) returns the \<^verbatim>\<open>already_visited\<close> node,
  whatever the depth, the parent's help and the process; the state is returned unchanged,
  so nothing is invoked, nothing is added to the visited set, and there is no recursion.
\<close>

theorem scan_command_second_visit:
  assumes "scan_command proc cmd_path depth parent_help st = Inr (r, st1)"
    and "visited st1 \<subseteq> visited st2"
  shows "scan_command proc' cmd_path depth' parent_help' st2 =
           Inr (error_node ''already_visited'' None None, st2)"
proof -
  have "join '' '' cmd_path \<in> visited st2"
    using scan_command_marks_visited [OF assms(1)] assms(2) by blast
  then show ?thesis
    by (subst scan_command.simps) (simp add: Let_def)
qed

theorem scan_command_second_visit_witness:
  "scan_command tool_proc [''tool'', ''run''] 1 (Some ''Usage: tool'') tool_state =
     Inr (error_node ''already_visited'' None None, tool_state)"
proof -
  have 1: "scan_command tool_proc [''tool'', ''run''] 1 (Some ''Usage: tool'')
             \<lparr>visited = {''tool'', ''tool build''},
                invocations = [[''tool'', ''--help''], [''tool'', ''build'', ''--help'']]\<rparr> =
           Inr (tool_run_node, tool_state)"
    by code_simp
  have 2: "visited tool_state \<subseteq> visited tool_state" by simp
  from scan_command_second_visit [OF 1 2] show ?thesis .
qed

subsection \<open>The depth limit\<close>

text \<open>
  Claim C2 says that every call with a depth above 5 returns the \<^verbatim>\<open>max_depth_exceeded\<close>
  node. The visited set is tested before the depth: a call at depth 6 on a path that is
  already in the visited set returns \<^verbatim>\<open>already_visited\<close>.
\<close>

theorem scan_command_visited_before_depth:
  "scan_command proc_fail [''tool'', ''a''] 6 None \<lparr>visited = {''tool a''}, invocations = []\<rparr> =
     Inr (error_node ''already_visited'' None None, \<lparr>visited = {''tool a''}, invocations = []\<rparr>)"
  by code_simp

text \<open>
  Claim C2, amended: a call with a depth above 5 returns \<^verbatim>\<open>max_depth_exceeded\<close> when the
  path has not been visited and \<^verbatim>\<open>already_visited\<close> when it has; in both cases the only
  change of the state is that the path is in the visited set, so nothing is invoked.
\<close>

theorem scan_command_beyond_max_depth:
  assumes "depth > 5"
  shows "scan_command proc cmd_path depth parent_help st =
           Inr (error_node (if join '' '' cmd_path \<in> visited st then ''already_visited''
                            else ''max_depth_exceeded'') None None,
                st\<lparr>visited := insert (join '' '' cmd_path) (visited st)\<rparr>)"
  using assms by (subst scan_command.simps) (simp add: Let_def insert_absorb)

theorem scan_command_beyond_max_depth_witness:
  "scan_command proc_fail [''tool'', ''a''] 6 None initial_state =
     Inr (error_node ''max_depth_exceeded'' None None, \<lparr>visited = {''tool a''}, invocations = []\<rparr>)"
proof -
  have "(6::int) > 5" by simp
  from scan_command_beyond_max_depth [OF this, of proc_fail "[''tool'', ''a'']" None initial_state]
  show ?thesis by (simp add: initial_state_def)
qed

subsection \<open>Help that repeats the parent's\<close>




subsection \<open>Error markers\<close>

lemma sublist_marker_nonempty:
  assumes "list_ex (\<lambda>marker. sublist marker out) error_markers"
  shows "out \<noteq> []"
  using assms by (auto simp: error_markers_def)

text \<open>
  Claim C4 says that a text with the serialization-failure marker gets the sub-kind of
  that signature. The marker in the list is \<^verbatim>\<open>TypeError: Do not know how to serialize\<close>,
  but the sub-kind \<^verbatim>\<open>bigint_serialization\<close> is chosen by a different test,
  \<^verbatim>\<open>"BigInt" in help_output\<close>: a text with the marker and without that word gets the
  sub-kind \<^verbatim>\<open>unknown\<close>.
\<close>

theorem scan_command_serialize_without_bigint:
  "scan_command (proc_const [] ''TypeError: Do not know how to serialize a Symbol'') [''tool''] 0 None
       initial_state =
     Inr (error_node ''command_execution_error'' (Some ''unknown'')
            (Some ''TypeError: Do not know how to serialize a Symbol''),
          \<lparr>visited = {''tool''}, invocations = [[''tool'', ''--help'']]\<rparr>)"
  by code_simp

text \<open>
  Claim C4, amended: when the path has not been visited, the depth is at most 5, the
  captured text contains one of the five markers, and it is not rejected as a repetition
  of the parent's help, the result is the \<^verbatim>\<open>command_execution_error\<close> node (so not a
  commander, custom or raw node), with the sub-kind \<^verbatim>\<open>bigint_serialization\<close> exactly when
  the text contains \<^verbatim>\<open>BigInt\<close> and \<^verbatim>\<open>unknown\<close> otherwise, and with the first 200
  characters of the text as preview.
\<close>

theorem scan_command_execution_error:
  assumes "join '' '' cmd_path \<notin> visited st" and "depth \<le> 5"
    and "run_command proc (cmd_path @ [''--help'']) = Some out"
    and "list_ex (\<lambda>marker. sublist marker out) error_markers"
    and "parent_help = None \<or> parent_help = Some [] \<or> strip out \<noteq> strip (the parent_help)"
  shows "scan_command proc cmd_path depth parent_help st =
           Inr (error_node ''command_execution_error''
                  (Some (if sublist ''BigInt'' out then ''bigint_serialization'' else ''unknown''))
                  (Some (take 200 out)),
                st\<lparr>visited := insert (join '' '' cmd_path) (visited st),
                   invocations := invocations st @ [cmd_path @ [''--help'']]\<rparr>)"
proof -
  have "out \<noteq> []" using assms(4) by (rule sublist_marker_nonempty)
  moreover have "\<not> (case parent_help of None \<Rightarrow> False | Some ph \<Rightarrow> ph \<noteq> [] \<and> strip out = strip ph)"
    using assms(5) by (auto split: option.splits)
  ultimately show ?thesis
    using assms(1-4) by (subst scan_command.simps) (simp add: Let_def)
qed

theorem scan_command_execution_error_witness:
  "scan_command (proc_const [] ''TypeError: Do not know how to serialize a BigInt'') [''tool''] 0 None
       initial_state =
     Inr (error_node ''command_execution_error'' (Some ''bigint_serialization'')
            (Some ''TypeError: Do not know how to serialize a BigInt''),
          \<lparr>visited = {''tool''}, invocations = [[''tool'', ''--help'']]\<rparr>)"
proof -
  let ?out = "''TypeError: Do not know how to serialize a BigInt''"
  have 1: "join '' '' [''tool''] \<notin> visited initial_state" by (simp add: initial_state_def)
  have 2: "(0::int) \<le> 5" by simp
  have 3: "run_command (proc_const [] ?out) ([''tool''] @ [''--help'']) = Some ?out" by code_simp
  have 4: "list_ex (\<lambda>marker. sublist marker ?out) error_markers" by code_simp
  have 5: "(None :: string option) = None \<or> None = Some [] \<or> strip ?out \<noteq> strip (the None)" by simp
  have 6: "sublist ''BigInt'' ?out" by code_simp
  from scan_command_execution_error [OF 1 2 3 4 5] 6
  show ?thesis by (simp add: initial_state_def)
qed

subsection \<open>Empty output\<close>

text \<open>
  Claim C10: when the process returns and its two texts, concatenated and stripped of
  escape sequences, are the empty string, \<^verbatim>\<open>scan_command\<close> (on a path not yet visited, at
  a depth of at most 5) returns the \<^verbatim>\<open>no_help_output\<close> node; node and state are those
  that any process \<open>proc'\<close> which times out or fails on this command line leads to.
\<close>

theorem scan_command_empty_output:
  assumes "join '' '' cmd_path \<notin> visited st" and "depth \<le> 5"
    and "proc (cmd_path @ [''--help'']) = Some (out, err)"
    and "re_remove ansi_pattern [] (out @ err) = []"
    and "proc' (cmd_path @ [''--help'']) = None"
  shows "scan_command proc cmd_path depth parent_help st =
           Inr (error_node ''no_help_output'' None None,
                st\<lparr>visited := insert (join '' '' cmd_path) (visited st),
                   invocations := invocations st @ [cmd_path @ [''--help'']]\<rparr>) \<and>
         scan_command proc cmd_path depth parent_help st =
           scan_command proc' cmd_path depth parent_help st"
proof -
  let ?r = "Inr (error_node ''no_help_output'' None None,
                st\<lparr>visited := insert (join '' '' cmd_path) (visited st),
                   invocations := invocations st @ [cmd_path @ [''--help'']]\<rparr>)"
  have a: "scan_command proc cmd_path depth parent_help st = ?r"
    using assms(1-4) by (subst scan_command.simps) (simp add: Let_def run_command_def)
  have b: "scan_command proc' cmd_path depth parent_help st = ?r"
    using assms(1,2,5) by (subst scan_command.simps) (simp add: Let_def run_command_def)
  from a b show ?thesis by simp
qed

theorem scan_command_empty_output_witness:
  "scan_command (proc_const [CHR 0x1B, CHR ''['', CHR ''1'', CHR ''m'']
                            [CHR 0x1B, CHR ''['', CHR ''0'', CHR ''m''])
       [''tool''] 0 None initial_state =
     Inr (error_node ''no_help_output'' None None,
          \<lparr>visited = {''tool''}, invocations = [[''tool'', ''--help'']]\<rparr>) \<and>
   scan_command (proc_const [CHR 0x1B, CHR ''['', CHR ''1'', CHR ''m'']
                            [CHR 0x1B, CHR ''['', CHR ''0'', CHR ''m''])
       [''tool''] 0 None initial_state =
     scan_command proc_fail [''tool''] 0 None initial_state"
proof -
  let ?o = "[CHR 0x1B, CHR ''['', CHR ''1'', CHR ''m'']"
  let ?e = "[CHR 0x1B, CHR ''['', CHR ''0'', CHR ''m'']"
  have 1: "join '' '' [''tool''] \<notin> visited initial_state" by (simp add: initial_state_def)
  have 2: "(0::int) \<le> 5" by simp
  have 3: "proc_const ?o ?e ([''tool''] @ [''--help'']) = Some (?o, ?e)" by (simp add: proc_const_def)
  have 4: "re_remove ansi_pattern [] (?o @ ?e) = []" by code_simp
  have 5: "proc_fail ([''tool''] @ [''--help'']) = None" by (simp add: proc_fail_def)
  from scan_command_empty_output [where proc = "proc_const ?o ?e" and proc' = proc_fail
         and parent_help = None, OF 1 2 3 4 5]
  show ?thesis by (auto simp: initial_state_def)
qed

subsection \<open>Error nodes have no children\<close>

lemma list_all_update:
  "list_all (\<lambda>kv. P (snd kv)) kvs \<Longrightarrow> P v \<Longrightarrow> list_all (\<lambda>kv. P (snd kv)) (AList.update k v kvs)"
  by (induction kvs) auto

lemma scan_childless:
  "scan_command proc cmd_path depth parent_help st = Inr (r, st') \<Longrightarrow> error_nodes_childless r"
  "scan_subcommands proc cmd_path depth help_output cmds subcommands st = Inr (subs, st'') \<Longrightarrow>
     list_all (\<lambda>kv. error_nodes_childless (snd kv)) subcommands \<Longrightarrow>
     list_all (\<lambda>kv. error_nodes_childless (snd kv)) subs"
proof (induction proc cmd_path depth parent_help st and proc cmd_path depth help_output cmds subcommands st
       arbitrary: r st' and subs st'' rule: scan_command_scan_subcommands.induct)
  case (1 proc cmd_path depth parent_help st)
  show ?case
    using "1.prems" "1.IH"
    apply (subst (asm) scan_command.simps)
    apply (auto simp: Let_def error_node_def commander_node_def custom_node_def raw_node_def
                split: if_splits option.splits sum.splits)
    done
next
  case (2 proc cmd_path depth help_output subcommands st)
  then show ?case by simp
next
  case (3 proc cmd_path depth help_output cmd cmds subcommands st)
  show ?case
    using "3.prems" "3.IH"
    apply (auto split: if_splits sum.splits)
    apply (blast intro: list_all_update)
    done
qed

text \<open>
  Claim C9: in the tree that \<^verbatim>\<open>scan_command\<close> returns, at every level, a node with the key
  \<^verbatim>\<open>error\<close> has no key \<^verbatim>\<open>subcommands\<close>.
\<close>

theorem scan_error_nodes_childless:
  assumes "scan_command proc cmd_path depth parent_help st = Inr (r, st')"
  shows "error_nodes_childless r"
  using assms by (rule scan_childless(1))

theorem scan_error_nodes_childless_witness:
  "scan_command tool_proc [''tool''] 0 None initial_state = Inr (tool_tree, tool_state) \<and>
   error_nodes_childless tool_tree"
proof -
  have 1: "scan_command tool_proc [''tool''] 0 None initial_state = Inr (tool_tree, tool_state)"
    by code_simp
  from scan_error_nodes_childless [OF 1] 1 show ?thesis by simp
qed

end
